theory Spec2Isabelle
  imports Complex_Main "HOL-Library.Multiset"
begin

section \<open>Tensors\<close>

text \<open>
  A tensor is its shape and its elements in row-major order (every tensor that
  \<open>CharLSTM.forward\<close> handles is contiguous). The element type is left open: the
  encoder moves numbers around and never computes with them.
\<close>

record 'a tensor =
  shape :: "nat list"
  data :: "'a list"

definition numel :: "'a tensor \<Rightarrow> nat" where
  "numel t = prod_list (shape t)"

text \<open>The elements of a tensor fill its shape.\<close>

definition wf_tensor :: "'a tensor \<Rightarrow> bool" where
  "wf_tensor t = (length (data t) = numel t)"

text \<open>\<^verbatim>\<open>t.unsqueeze(0)\<close>: a new leading dimension of size 1.\<close>

definition unsqueeze0 :: "'a tensor \<Rightarrow> 'a tensor" where
  "unsqueeze0 t = t\<lparr>shape := 1 # shape t\<rparr>"

text \<open>\<^verbatim>\<open>t.squeeze()\<close>, without an argument: every dimension of size 1 is removed.\<close>

definition squeeze :: "'a tensor \<Rightarrow> 'a tensor" where
  "squeeze t = t\<lparr>shape := filter (\<lambda>d. d \<noteq> 1) (shape t)\<rparr>"

text \<open>\<^verbatim>\<open>t.view(-1)\<close>: one dimension holding all the elements.\<close>

definition view_flat :: "'a tensor \<Rightarrow> 'a tensor" where
  "view_flat t = t\<lparr>shape := [numel t]\<rparr>"

text \<open>
  The exceptions that leave \<open>CharLSTM\<close>: one raised by the recurrent primitive
  (its constructor or its call), passed through as it is, and the three of
  \<^verbatim>\<open>torch.cat\<close>. The class defines no exception of its own.
\<close>

datatype 'e error =
  LSTMError 'e
  | CatEmptyList
  | CatZeroDim
  | CatSizeMismatch

text \<open>
  \<^verbatim>\<open>torch.cat(ts, dim=0)\<close>: the list must not be empty, no tensor may be
  zero-dimensional, and all must agree on every dimension but the first. (The
  legacy rule that skips one-dimensional empty tensors is left out: \<open>forward\<close>
  only ever passes two-dimensional tensors.)
\<close>

definition cat0 :: "'a tensor list \<Rightarrow> 'e error + 'a tensor" where
  "cat0 ts =
     (if ts = [] then Inl CatEmptyList
      else if \<exists>t \<in> set ts. shape t = [] then Inl CatZeroDim
      else if \<exists>t \<in> set ts. tl (shape t) \<noteq> tl (shape (hd ts)) then Inl CatSizeMismatch
      else Inr \<lparr>shape = sum_list (map (\<lambda>t. hd (shape t)) ts) # tl (shape (hd ts)),
                data = concat (map data ts)\<rparr>)"

text \<open>Row \<open>i\<close> of a two-dimensional tensor.\<close>

definition row :: "'a tensor \<Rightarrow> nat \<Rightarrow> 'a list" where
  "row t i = take (shape t ! 1) (drop (i * (shape t ! 1)) (data t))"

section \<open>The recurrent primitive\<close>

text \<open>
  \<^verbatim>\<open>torch.nn.LSTM\<close> is a library class, not code of the repository, so it is a
  parameter of the model: a constructor \<open>LSTM\<close> from the keyword arguments to a
  module or an exception, and a call from a module and an input to the pair
  \<^verbatim>\<open>(output, (h_n, c_n))\<close> or an exception, together with the module as the call
  leaves it (its parameters, its mode, the random state dropout draws from).
\<close>

record lstm_args =
  input_size :: int
  hidden_size :: int
  num_layers :: int
  batch_first :: bool
  dropout :: real
  bidirectional :: bool

type_synonym ('a, 'e, 'r) lstm_call =
  "'r \<Rightarrow> 'a tensor \<Rightarrow> ('e + 'a tensor \<times> 'a tensor \<times> 'a tensor) \<times> 'r"

section \<open>CharLSTM\<close>

record 'r CharLSTM =
  n_chars :: int
  output_size :: int
  rnn :: 'r

text \<open>
  The keyword arguments that \<^verbatim>\<open>__init__\<close> passes to \<^verbatim>\<open>LSTM\<close>:
  \<^verbatim>\<open>input_size=self.n_chars, hidden_size=hidden_size, num_layers=layers,
  batch_first=True, dropout=dropout, bidirectional=bidirectional\<close>.
\<close>

definition lstm_kwargs :: "int \<Rightarrow> int \<Rightarrow> bool \<Rightarrow> int \<Rightarrow> real \<Rightarrow> lstm_args" where
  "lstm_kwargs n_chars' hidden_size' bidirectional' layers dropout' =
     \<lparr>input_size = n_chars', hidden_size = hidden_size', num_layers = layers,
      batch_first = True, dropout = dropout', bidirectional = bidirectional'\<rparr>"

text \<open>
  \<^verbatim>\<open>CharLSTM.__init__\<close>: the two attributes are set, then the primitive is
  constructed; an exception of its constructor leaves \<^verbatim>\<open>__init__\<close>. Nothing is
  checked before.
\<close>

definition CharLSTM_init ::
  "(lstm_args \<Rightarrow> 'e + 'r) \<Rightarrow> int \<Rightarrow> int \<Rightarrow> bool \<Rightarrow> int \<Rightarrow> real \<Rightarrow> 'e error + 'r CharLSTM" where
  "CharLSTM_init LSTM n_chars' hidden_size' bidirectional' layers dropout' =
     (let output_size' = layers * hidden_size';
          output_size' = (if bidirectional' then output_size' * 2 else output_size')
      in case LSTM (lstm_kwargs n_chars' hidden_size' bidirectional' layers dropout') of
           Inl e \<Rightarrow> Inl (LSTMError e)
         | Inr r \<Rightarrow> Inr \<lparr>n_chars = n_chars', output_size = output_size', rnn = r\<rparr>)"

text \<open>
  The body of the loop of \<^verbatim>\<open>CharLSTM.forward\<close> for one word: the tensor
  appended to \<^verbatim>\<open>hiddens\<close>, or the exception of the primitive.
\<close>

definition word_hidden ::
  "('a, 'e, 'r) lstm_call \<Rightarrow> 'r \<Rightarrow> 'a tensor \<Rightarrow> ('e error + 'a tensor) \<times> 'r" where
  "word_hidden call r word =
     (case call r (unsqueeze0 word) of
        (Inl e, r') \<Rightarrow> (Inl (LSTMError e), r')
      | (Inr (_, state), r') \<Rightarrow>
          (let hidden = fst state;
               hidden = squeeze hidden;
               hidden = unsqueeze0 (view_flat hidden)
           in (Inr hidden, r')))"

text \<open>The loop: \<^verbatim>\<open>for word in inputs: ... hiddens.append(hidden)\<close>.\<close>

fun forward_loop ::
  "('a, 'e, 'r) lstm_call \<Rightarrow> 'r \<Rightarrow> 'a tensor list \<Rightarrow> 'a tensor list
     \<Rightarrow> ('e error + 'a tensor list) \<times> 'r" where
  "forward_loop call r [] hiddens = (Inr hiddens, r)"
| "forward_loop call r (word # inputs) hiddens =
     (case word_hidden call r word of
        (Inl e, r') \<Rightarrow> (Inl e, r')
      | (Inr hidden, r') \<Rightarrow> forward_loop call r' inputs (hiddens @ [hidden]))"

text \<open>
  \<^verbatim>\<open>CharLSTM.forward\<close>: the result or the exception, and the encoder as the
  call leaves it.
\<close>

definition forward ::
  "('a, 'e, 'r) lstm_call \<Rightarrow> 'r CharLSTM \<Rightarrow> 'a tensor list
     \<Rightarrow> ('e error + 'a tensor) \<times> 'r CharLSTM" where
  "forward call self inputs =
     (case forward_loop call (rnn self) inputs [] of
        (Inl e, r') \<Rightarrow> (Inl e, self\<lparr>rnn := r'\<rparr>)
      | (Inr hiddens, r') \<Rightarrow> (cat0 hiddens, self\<lparr>rnn := r'\<rparr>))"

section \<open>The contract of the primitive\<close>

text \<open>
  What the encoder relies on, as the specification words it: given an input
  \<open>[1 \<times> length \<times> n_chars]\<close> with at least one step, the primitive returns a final
  hidden state of shape \<open>[(layers \<times> directions) \<times> 1 \<times> hidden_size]\<close>. The theorems
  take it as a hypothesis on the parameter \<open>call\<close>.
\<close>

definition final_state_shape :: "lstm_args \<Rightarrow> nat list" where
  "final_state_shape args =
     [nat (num_layers args) * (if bidirectional args then 2 else 1), 1, nat (hidden_size args)]"

definition features_len :: "lstm_args \<Rightarrow> nat" where
  "features_len args = prod_list (final_state_shape args)"

definition lstm_contract :: "('a, 'e, 'r) lstm_call \<Rightarrow> lstm_args \<Rightarrow> bool" where
  "lstm_contract call args =
     (\<forall>r x L k. shape x = [1, L, k] \<and> int k = input_size args \<and> 1 \<le> L \<and> wf_tensor x \<longrightarrow>
        (case fst (call r x) of
           Inl e \<Rightarrow> False
         | Inr (out, h, c) \<Rightarrow> shape h = final_state_shape args \<and> wf_tensor h))"

text \<open>
  The primitive at inference with its parameters fixed: a call leaves the module as
  it was (no parameter update, no random draw).
\<close>

definition lstm_pure :: "('a, 'e, 'r) lstm_call \<Rightarrow> bool" where
  "lstm_pure call = (\<forall>r x. snd (call r x) = r)"

text \<open>
  The primitive raises the exception \<open>sm\<close> on a single-example batch whose
  feature width is not its \<open>input_size\<close>.
\<close>

definition lstm_rejects_width :: "('a, 'e, 'r) lstm_call \<Rightarrow> lstm_args \<Rightarrow> 'e \<Rightarrow> bool" where
  "lstm_rejects_width call args sm =
     (\<forall>r x L k. shape x = [1, L, k] \<and> int k \<noteq> input_size args \<longrightarrow> fst (call r x) = Inl sm)"

text \<open>
  A word matrix \<open>[word_length \<times> n_chars]\<close> with at least one character; a
  two-dimensional tensor and its second dimension.
\<close>

definition valid_word :: "int \<Rightarrow> 'a tensor \<Rightarrow> bool" where
  "valid_word nc w =
     (case shape w of [L, k] \<Rightarrow> 1 \<le> L \<and> int k = nc \<and> wf_tensor w | _ \<Rightarrow> False)"

definition is_matrix :: "'a tensor \<Rightarrow> bool" where
  "is_matrix w = (length (shape w) = 2)"

definition width :: "'a tensor \<Rightarrow> nat" where
  "width w = shape w ! 1"

text \<open>The elements of the final hidden state the primitive returns for a word.\<close>

definition hidden_of :: "('a, 'e, 'r) lstm_call \<Rightarrow> 'r \<Rightarrow> 'a tensor \<Rightarrow> 'a list" where
  "hidden_of call r w =
     (case fst (call r (unsqueeze0 w)) of Inl e \<Rightarrow> [] | Inr (out, h, c) \<Rightarrow> data h)"

section \<open>The per-word processing as the specification words it\<close>

text \<open>
  Step 1 inserts a leading batch dimension of size 1; step 2 runs the primitive,
  discards the per-step outputs and keeps the final hidden state; step 3 removes the
  batch dimension, the second one of \<open>[(layers \<times> directions) \<times> 1 \<times> hidden_size]\<close>;
  step 4 flattens in the primitive's own order.
\<close>

definition insert_batch_dim :: "'a tensor \<Rightarrow> 'a tensor" where
  "insert_batch_dim t = \<lparr>shape = 1 # shape t, data = data t\<rparr>"

definition remove_batch_dim :: "'a tensor \<Rightarrow> 'a tensor" where
  "remove_batch_dim t =
     \<lparr>shape = (case shape t of a # b # rest \<Rightarrow> a # rest | s \<Rightarrow> s), data = data t\<rparr>"

definition flatten :: "'a tensor \<Rightarrow> 'a list" where
  "flatten t = data t"

definition spec_word_vector ::
  "('a, 'e, 'r) lstm_call \<Rightarrow> 'r \<Rightarrow> 'a tensor \<Rightarrow> 'e error + 'a list" where
  "spec_word_vector call r word =
     (case fst (call r (insert_batch_dim word)) of
        Inl e \<Rightarrow> Inl (LSTMError e)
      | Inr (out, h, c) \<Rightarrow> Inr (flatten (remove_batch_dim h)))"

section \<open>A primitive to compute with\<close>

text \<open>
  A stand-in for \<^verbatim>\<open>torch.nn.LSTM\<close>, used only where a theorem is instantiated
  at a concrete input; the theorems themselves hold for every primitive. It has no
  learnable state. Its constructor accepts a dropout between 0 and 1, both included,
  as the primitive documents, and sizes that are not negative. Its call checks the
  input as the primitive does (three dimensions, the feature width, and, when
  \<open>reject_empty\<close> is set, a sequence of at least one step) and returns a final
  hidden state of the contract's shape whose entries are the sum of the input's
  entries plus the position.
\<close>

definition toy_LSTM :: "lstm_args \<Rightarrow> string + unit" where
  "toy_LSTM args =
     (if dropout args < 0 \<or> 1 < dropout args
      then Inl ''dropout should be a number in range [0, 1]''
      else if input_size args < 0 \<or> hidden_size args < 0 \<or> num_layers args < 0
      then Inl ''negative dimensions are not allowed''
      else Inr ())"

definition toy_call :: "bool \<Rightarrow> lstm_args \<Rightarrow> (int, string, unit) lstm_call" where
  "toy_call reject_empty args r x =
     (case shape x of
        [b, L, k] \<Rightarrow>
          if int k \<noteq> input_size args
          then (Inl ''input.size(-1) must be equal to input_size'', r)
          else if reject_empty \<and> L = 0
          then (Inl ''Expected sequence length to be larger than 0 in RNN'', r)
          else
            (let LD = nat (num_layers args) * (if bidirectional args then 2 else 1);
                 H = nat (hidden_size args);
                 out = \<lparr>shape = [b, L, (if bidirectional args then 2 else 1) * H],
                        data = replicate (b * L * ((if bidirectional args then 2 else 1) * H)) 0\<rparr>;
                 h = \<lparr>shape = [LD, b, H],
                      data = map (\<lambda>j. sum_list (data x) + int j) [0..<LD * b * H]\<rparr>
             in (Inr (out, h, h), r))
      | _ \<Rightarrow> (Inl ''input must have 3 dimensions'', r))"

section \<open>Concrete inputs\<close>

text \<open>
  The scenario of the specification: \<open>n_chars = 5\<close>, \<open>hidden_size = 3\<close>, two
  directions, one layer, so \<open>output_size = 6\<close>; a word of four characters and a word
  of one. Beside them a word of no character, a word whose rows have four
  entries, and a second word of two characters.
\<close>

definition ex_args :: lstm_args where
  "ex_args = lstm_kwargs 5 3 True 1 0"

definition ex_self :: "unit CharLSTM" where
  "ex_self = \<lparr>n_chars = 5, output_size = 6, rnn = ()\<rparr>"

definition ex_long_word :: "int tensor" where
  "ex_long_word = \<lparr>shape = [4, 5],
     data = [1, 0, 0, 0, 0,  0, 1, 0, 0, 0,  0, 0, 1, 0, 0,  0, 0, 0, 0, 0]\<rparr>"

definition ex_short_word :: "int tensor" where
  "ex_short_word = \<lparr>shape = [1, 5], data = [0, 0, 0, 0, 1]\<rparr>"

definition ex_empty_word :: "int tensor" where
  "ex_empty_word = \<lparr>shape = [0, 5], data = []\<rparr>"

definition ex_narrow_word :: "int tensor" where
  "ex_narrow_word = \<lparr>shape = [2, 4], data = [1, 0, 0, 0,  0, 0, 0, 1]\<rparr>"

definition ex_other_word :: "int tensor" where
  "ex_other_word = \<lparr>shape = [2, 5], data = [0, 0, 0, 1, 0,  0, 0, 0, 0, 1]\<rparr>"

section \<open>Tensor operations\<close>

lemma prod_list_filter_one: "prod_list (filter (\<lambda>d. d \<noteq> Suc 0) ds) = prod_list (ds :: nat list)"
  by (induction ds) auto

lemma numel_squeeze: "numel (squeeze t) = numel t"
  by (simp add: numel_def squeeze_def prod_list_filter_one)

lemma flat_hidden_eq:
  "unsqueeze0 (view_flat (squeeze (h :: 'a tensor))) = \<lparr>shape = [1, numel h], data = data h\<rparr>"
proof -
  have "numel (squeeze h) = numel h" by (rule numel_squeeze)
  then show ?thesis
    by (cases h) (simp add: unsqueeze0_def view_flat_def squeeze_def)
qed

lemma word_hidden_eq:
  "word_hidden call r w =
     (case call r (unsqueeze0 w) of
        (Inl e, r') \<Rightarrow> (Inl (LSTMError e), r')
      | (Inr (out, h, c), r') \<Rightarrow> (Inr \<lparr>shape = [1, numel h], data = data h\<rparr>, r'))"
  by (simp add: word_hidden_def Let_def flat_hidden_eq split: prod.splits sum.splits)

lemma forward_loop_acc:
  "forward_loop call r ws acc =
     (case forward_loop call r ws [] of
        (Inl e, r') \<Rightarrow> (Inl e, r')
      | (Inr hs, r') \<Rightarrow> (Inr (acc @ hs), r'))"
proof (induction ws arbitrary: r acc)
  case Nil
  show ?case by simp
next
  case (Cons w ws)
  show ?case
  proof (cases "word_hidden call r w")
    case (Pair res r')
    show ?thesis
    proof (cases res)
      case (Inl e)
      with Pair show ?thesis by simp
    next
      case (Inr h)
      with Pair show ?thesis
        using Cons.IH [of r' "acc @ [h]"] Cons.IH [of r' "[h]"]
        by (simp split: prod.splits sum.splits)
    qed
  qed
qed

lemma call_valid:
  assumes "lstm_contract call args" and "valid_word (input_size args) w"
  shows "\<exists>out h c r'. call r (unsqueeze0 w) = (Inr (out, h, c), r') \<and>
           shape h = final_state_shape args \<and> wf_tensor h"
proof -
  from assms(2) obtain L k where w: "shape w = [L, k]" "1 \<le> L" "int k = input_size args" "wf_tensor w"
    by (auto simp: valid_word_def split: list.splits)
  have "shape (unsqueeze0 w) = [1, L, k]" "wf_tensor (unsqueeze0 w)"
    using w by (simp_all add: unsqueeze0_def wf_tensor_def numel_def)
  with assms(1) w have "case fst (call r (unsqueeze0 w)) of
           Inl e \<Rightarrow> False
         | Inr (out, h, c) \<Rightarrow> shape h = final_state_shape args \<and> wf_tensor h"
    unfolding lstm_contract_def by blast
  then show ?thesis
    by (cases "call r (unsqueeze0 w)") (auto split: sum.splits)
qed

lemma numel_final:
  "shape h = final_state_shape args \<Longrightarrow> numel h = features_len args"
  by (simp add: numel_def features_len_def)

lemma word_hidden_valid:
  assumes "lstm_contract call args" and "valid_word (input_size args) w"
  shows "\<exists>r'. word_hidden call r w =
           (Inr \<lparr>shape = [1, features_len args], data = hidden_of call r w\<rparr>, r') \<and>
           length (hidden_of call r w) = features_len args"
proof -
  from call_valid [OF assms, of r] obtain out h c r'
    where c: "call r (unsqueeze0 w) = (Inr (out, h, c), r')"
      and h: "shape h = final_state_shape args" "wf_tensor h"
    by blast
  have "numel h = features_len args" using h(1) by (rule numel_final)
  with c h(2) show ?thesis
    by (simp add: word_hidden_eq hidden_of_def wf_tensor_def)
qed

lemma word_hidden_pure:
  assumes "lstm_pure call"
  shows "snd (word_hidden call r w) = r"
proof -
  have "snd (call r (unsqueeze0 w)) = r" using assms by (simp add: lstm_pure_def)
  then show ?thesis
    by (cases "call r (unsqueeze0 w)") (auto simp: word_hidden_eq split: sum.splits)
qed

lemma forward_loop_shapes:
  assumes "lstm_contract call args" and "\<forall>w \<in> set ws. valid_word (input_size args) w"
  shows "\<exists>hs r'. forward_loop call r ws acc = (Inr (acc @ hs), r') \<and> length hs = length ws \<and>
           (\<forall>t \<in> set hs. shape t = [1, features_len args] \<and> length (data t) = features_len args)"
  using assms(2)
proof (induction ws arbitrary: r acc)
  case Nil
  show ?case by simp
next
  case (Cons w ws)
  from Cons.prems have w: "valid_word (input_size args) w"
    and ws: "\<forall>w \<in> set ws. valid_word (input_size args) w" by simp_all
  from word_hidden_valid [OF assms(1) w, of r] obtain r1
    where h: "word_hidden call r w =
        (Inr \<lparr>shape = [1, features_len args], data = hidden_of call r w\<rparr>, r1)"
      and l: "length (hidden_of call r w) = features_len args"
    by blast
  let ?h = "\<lparr>shape = [1, features_len args], data = hidden_of call r w\<rparr>"
  from Cons.IH [OF ws, of r1 "acc @ [?h]"] obtain hs r'
    where IH: "forward_loop call r1 ws (acc @ [?h]) = (Inr ((acc @ [?h]) @ hs), r')"
      "length hs = length ws"
      "\<forall>t \<in> set hs. shape t = [1, features_len args] \<and> length (data t) = features_len args"
    by blast
  have "forward_loop call r (w # ws) acc = (Inr (acc @ (?h # hs)), r')"
    using h IH(1) by simp
  moreover have "length (?h # hs) = length (w # ws)" using IH(2) by simp
  moreover have "\<forall>t \<in> set (?h # hs). shape t = [1, features_len args] \<and> length (data t) = features_len args"
    using IH(3) l by simp
  ultimately show ?case by blast
qed

lemma forward_loop_pure_state:
  "lstm_pure call \<Longrightarrow> snd (forward_loop call r ws acc) = r"
proof (induction ws arbitrary: acc)
  case Nil
  show ?case by simp
next
  case (Cons w ws)
  from word_hidden_pure [OF Cons.prems, of r w] obtain res where "word_hidden call r w = (res, r)"
    by (metis prod.collapse)
  then show ?case using Cons.IH [OF Cons.prems] by (cases res) simp_all
qed

lemma forward_loop_pure:
  assumes "lstm_contract call args" and "lstm_pure call"
    and "\<forall>w \<in> set ws. valid_word (input_size args) w"
  shows "forward_loop call r ws acc =
     (Inr (acc @ map (\<lambda>w. \<lparr>shape = [1, features_len args], data = hidden_of call r w\<rparr>) ws), r)"
  using assms(3)
proof (induction ws arbitrary: acc)
  case Nil
  show ?case by simp
next
  case (Cons w ws)
  from Cons.prems have w: "valid_word (input_size args) w"
    and ws: "\<forall>w \<in> set ws. valid_word (input_size args) w" by simp_all
  from word_hidden_valid [OF assms(1) w, of r] word_hidden_pure [OF assms(2), of r w]
  have "word_hidden call r w =
        (Inr \<lparr>shape = [1, features_len args], data = hidden_of call r w\<rparr>, r)"
    by auto
  then show ?case using Cons.IH [OF ws] by simp
qed

lemma cat0_rows:
  assumes "ts \<noteq> []" and "\<forall>t \<in> set ts. shape t = [1, n]"
  shows "cat0 ts = Inr \<lparr>shape = [length ts, n], data = concat (map data ts)\<rparr>"
proof -
  have "sum_list (map (\<lambda>t. hd (shape t)) ts) = length ts"
    using assms(2) by (induction ts) simp_all
  moreover have "tl (shape (hd ts)) = [n]" using assms by (cases ts) simp_all
  moreover have "\<not> (\<exists>t \<in> set ts. shape t = [])" using assms(2) by auto
  moreover have "\<not> (\<exists>t \<in> set ts. tl (shape t) \<noteq> tl (shape (hd ts)))"
    using assms(2) \<open>tl (shape (hd ts)) = [n]\<close> by auto
  ultimately show ?thesis using assms(1) by (simp add: cat0_def)
qed

lemma take_drop_concat:
  assumes "\<forall>x \<in> set xs. length x = n" and "i < length xs"
  shows "take n (drop (i * n) (concat xs)) = xs ! i"
  using assms
proof (induction xs arbitrary: i)
  case Nil
  then show ?case by simp
next
  case (Cons x xs)
  show ?case
  proof (cases i)
    case 0
    with Cons.prems show ?thesis by simp
  next
    case (Suc j)
    with Cons.prems have "j < length xs" "\<forall>x \<in> set xs. length x = n" "length x = n" by simp_all
    with Cons.IH [of j] Suc show ?thesis by simp
  qed
qed

lemma row_stack:
  assumes "\<forall>x \<in> set xs. length x = n" and "i < length xs"
  shows "row \<lparr>shape = [m, n], data = concat xs\<rparr> i = xs ! i"
  using take_drop_concat [OF assms] by (simp add: row_def)

section \<open>The forward pass on valid words\<close>

lemma init_Inr:
  assumes "CharLSTM_init LSTM nc hs bd ly dr = Inr enc"
  shows "n_chars enc = nc" and "output_size enc = ly * hs * (if bd then 2 else 1)"
  using assms by (auto simp: CharLSTM_init_def Let_def split: sum.splits)

lemma features_len_kwargs:
  assumes "0 \<le> hs" and "0 \<le> ly"
  shows "features_len (lstm_kwargs nc hs bd ly dr) = nat (ly * hs * (if bd then 2 else 1))"
  using assms
  by (simp add: features_len_def final_state_shape_def lstm_kwargs_def nat_mult_distrib)

lemma forward_valid:
  assumes "lstm_contract call args" and "\<forall>w \<in> set ws. valid_word (input_size args) w"
    and "ws \<noteq> []"
  shows "\<exists>t. fst (forward call enc ws) = Inr t \<and> shape t = [length ws, features_len args] \<and>
           wf_tensor t \<and> (\<forall>i<length ws. length (row t i) = features_len args)"
proof -
  from forward_loop_shapes [OF assms(1,2), of "rnn enc" "[]"] obtain hs r'
    where l: "forward_loop call (rnn enc) ws [] = (Inr hs, r')" "length hs = length ws"
      and s: "\<forall>t \<in> set hs. shape t = [1, features_len args] \<and> length (data t) = features_len args"
    by auto
  let ?n = "features_len args"
  let ?t = "\<lparr>shape = [length hs, ?n], data = concat (map data hs)\<rparr>"
  from l(2) assms(3) have ne: "hs \<noteq> []" by auto
  from s have "\<forall>t \<in> set hs. shape t = [1, ?n]" by simp
  from cat0_rows [OF ne this] l(1) have f: "fst (forward call enc ws) = Inr ?t"
    by (simp add: forward_def)
  have len: "\<forall>x \<in> set (map data hs). length x = ?n" using s by simp
  have "length (concat (map data hs)) = length hs * ?n"
    using s by (induction hs) simp_all
  then have wf: "wf_tensor ?t" by (simp add: wf_tensor_def numel_def)
  have "\<forall>i<length ws. length (row ?t i) = ?n"
  proof (intro allI impI)
    fix i assume "i < length ws"
    then have i: "i < length (map data hs)" using l(2) by simp
    from row_stack [OF len i, of "length hs"] len i show "length (row ?t i) = ?n" by simp
  qed
  with f wf l(2) show ?thesis by simp
qed

lemma forward_pure_valid:
  assumes "lstm_contract call args" and "lstm_pure call"
    and "\<forall>w \<in> set ws. valid_word (input_size args) w" and "ws \<noteq> []"
  shows "forward call enc ws =
     (Inr \<lparr>shape = [length ws, features_len args],
           data = concat (map (hidden_of call (rnn enc)) ws)\<rparr>, enc)"
proof -
  let ?g = "\<lambda>w. \<lparr>shape = [1, features_len args], data = hidden_of call (rnn enc) w\<rparr>"
  have l: "forward_loop call (rnn enc) ws [] = (Inr (map ?g ws), rnn enc)"
    using forward_loop_pure [OF assms(1,2,3), of "rnn enc" "[]"] by simp
  have "cat0 (map ?g ws) = Inr \<lparr>shape = [length (map ?g ws), features_len args],
      data = concat (map data (map ?g ws))\<rparr>"
    by (rule cat0_rows) (use assms(4) in auto)
  then have "cat0 (map ?g ws) = Inr \<lparr>shape = [length ws, features_len args],
      data = concat (map (hidden_of call (rnn enc)) ws)\<rparr>"
    by (simp add: comp_def)
  with l show ?thesis by (simp add: forward_def)
qed

lemma hidden_of_length:
  assumes "lstm_contract call args" and "valid_word (input_size args) w"
  shows "length (hidden_of call r w) = features_len args"
  using word_hidden_valid [OF assms, of r] by blast

lemma forward_pure_row:
  assumes "lstm_contract call args" and "lstm_pure call"
    and "\<forall>w \<in> set ws. valid_word (input_size args) w" and "i < length ws"
  shows "row (projr (fst (forward call enc ws))) i = hidden_of call (rnn enc) (ws ! i)"
proof -
  from assms(4) have ne: "ws \<noteq> []" by auto
  have len: "\<forall>x \<in> set (map (hidden_of call (rnn enc)) ws). length x = features_len args"
    using hidden_of_length [OF assms(1)] assms(3) by simp
  have i: "i < length (map (hidden_of call (rnn enc)) ws)" using assms(4) by simp
  show ?thesis
    using forward_pure_valid [OF assms(1,2,3) ne, of enc] row_stack [OF len i, of "length ws"] assms(4)
    by simp
qed

lemma forward_loop_append:
  "forward_loop call r (xs @ ys) acc =
     (case forward_loop call r xs acc of
        (Inl e, r') \<Rightarrow> (Inl e, r')
      | (Inr hs, r') \<Rightarrow> forward_loop call r' ys hs)"
proof (induction xs arbitrary: r acc)
  case Nil
  show ?case by simp
next
  case (Cons x xs)
  show ?case
  proof (cases "word_hidden call r x")
    case (Pair res r1)
    then show ?thesis using Cons.IH [of r1] by (cases res) simp_all
  qed
qed

lemma word_hidden_rejected:
  assumes "lstm_rejects_width call args sm" and "lstm_pure call"
    and "is_matrix w" and "int (width w) \<noteq> input_size args"
  shows "word_hidden call r w = (Inl (LSTMError sm), r)"
proof -
  from assms(3) obtain L k where w: "shape w = [L, k]"
    by (cases "shape w" rule: list.exhaust; cases "tl (shape w)"; auto simp: is_matrix_def)
  with assms(4) have "int k \<noteq> input_size args" by (simp add: width_def)
  moreover have "shape (unsqueeze0 w) = [1, L, k]" using w by (simp add: unsqueeze0_def)
  ultimately have "fst (call r (unsqueeze0 w)) = Inl sm"
    using assms(1) unfolding lstm_rejects_width_def by blast
  moreover have "snd (call r (unsqueeze0 w)) = r" using assms(2) by (simp add: lstm_pure_def)
  ultimately have "call r (unsqueeze0 w) = (Inl sm, r)" by (metis prod.collapse)
  then show ?thesis by (simp add: word_hidden_eq)
qed

lemma forward_loop_rejected:
  assumes "lstm_contract call args" and "lstm_rejects_width call args sm" and "lstm_pure call"
    and "\<forall>w \<in> set ws. is_matrix w \<and> (int (width w) = input_size args \<longrightarrow> valid_word (input_size args) w)"
    and "\<exists>w \<in> set ws. int (width w) \<noteq> input_size args"
  shows "forward_loop call r ws acc = (Inl (LSTMError sm), r)"
  using assms(4,5)
proof (induction ws arbitrary: acc)
  case Nil
  then show ?case by simp
next
  case (Cons w ws)
  show ?case
  proof (cases "int (width w) = input_size args")
    case False
    with Cons.prems(1) word_hidden_rejected [OF assms(2,3), of w r] show ?thesis by simp
  next
    case True
    with Cons.prems have v: "valid_word (input_size args) w"
      and rest: "\<forall>w \<in> set ws. is_matrix w \<and> (int (width w) = input_size args \<longrightarrow> valid_word (input_size args) w)"
      "\<exists>w \<in> set ws. int (width w) \<noteq> input_size args"
      by auto
    from word_hidden_valid [OF assms(1) v, of r] word_hidden_pure [OF assms(3), of r w]
    obtain h where "word_hidden call r w = (Inr h, r)" by auto
    with Cons.IH [OF rest] show ?thesis by simp
  qed
qed

lemma spec_word_vector_eq:
  "spec_word_vector call r w =
     (case fst (call r (unsqueeze0 w)) of Inl e \<Rightarrow> Inl (LSTMError e) | Inr (out, h, c) \<Rightarrow> Inr (data h))"
proof -
  have "insert_batch_dim w = unsqueeze0 w"
    by (cases w) (simp add: insert_batch_dim_def unsqueeze0_def)
  then show ?thesis
    by (simp add: spec_word_vector_def flatten_def remove_batch_dim_def split: sum.splits)
qed

section \<open>The stand-in primitive meets the contract\<close>

lemma toy_contract: "lstm_contract (toy_call re args) args"
  unfolding lstm_contract_def
  by (auto simp: toy_call_def Let_def final_state_shape_def wf_tensor_def numel_def)

lemma toy_pure: "lstm_pure (toy_call re args)"
  by (simp add: lstm_pure_def)

lemma toy_rejects_width:
  "lstm_rejects_width (toy_call re args) args ''input.size(-1) must be equal to input_size''"
  unfolding lstm_rejects_width_def by (auto simp: toy_call_def)

lemma toy_init: "CharLSTM_init toy_LSTM 5 3 True 1 0 = Inr ex_self"
  by (simp add: CharLSTM_init_def toy_LSTM_def lstm_kwargs_def ex_self_def)

lemma ex_self_fields: "n_chars ex_self = 5" "output_size ex_self = 6" "rnn ex_self = ()"
  by (simp_all add: ex_self_def)

lemma ex_words_valid:
  "valid_word 5 ex_long_word" "valid_word 5 ex_short_word"
  by (simp_all add: valid_word_def ex_long_word_def ex_short_word_def wf_tensor_def numel_def)

lemma ex_forward:
  "forward (toy_call True ex_args) ex_self [ex_long_word, ex_short_word] =
     (Inr \<lparr>shape = [2, 6], data = [3, 4, 5, 6, 7, 8,  1, 2, 3, 4, 5, 6]\<rparr>, ex_self)"
  by (simp add: forward_def word_hidden_eq toy_call_def ex_args_def lstm_kwargs_def ex_self_def
      ex_long_word_def ex_short_word_def unsqueeze0_def numel_def cat0_def Let_def upt_rec)

lemma ex_other_valid: "valid_word 5 ex_other_word"
  by (simp add: valid_word_def ex_other_word_def wf_tensor_def numel_def)

lemma ex_contract: "lstm_contract (toy_call re ex_args) (lstm_kwargs 5 3 True 1 0)"
  using toy_contract [of re ex_args] by (simp add: ex_args_def)

section \<open>The claims\<close>

text \<open>
  C1. A construction that succeeds stores
  \<open>output_size = layers * hidden_size * (2 if bidirectional else 1)\<close>, and the one
  later operation of the class, \<open>forward\<close>, leaves the attribute as it is, whatever
  the primitive does and whether the call returns or raises.
\<close>

theorem output_size_formula:
  assumes "CharLSTM_init LSTM n_chars' hidden_size' bidirectional' layers dropout' = Inr self"
  shows "output_size self = layers * hidden_size' * (if bidirectional' then 2 else 1) \<and>
         output_size (snd (forward call self inputs)) = output_size self"
proof -
  have "output_size (snd (forward call self inputs)) = output_size self"
    by (simp add: forward_def split: prod.splits sum.splits)
  with init_Inr(2) [OF assms] show ?thesis by simp
qed

theorem output_size_formula_witness:
  "CharLSTM_init toy_LSTM 5 3 True 1 0 = Inr ex_self \<and>
   output_size ex_self = 1 * 3 * (if True then 2 else 1) \<and>
   output_size (snd (forward (toy_call True ex_args) ex_self [ex_long_word, ex_short_word])) = 6"
  using output_size_formula [OF toy_init, of "toy_call True ex_args" "[ex_long_word, ex_short_word]"]
    toy_init
  by (simp add: ex_self_fields)

text \<open>
  C2. \<^verbatim>\<open>forward([])\<close>: the loop runs no step, \<^verbatim>\<open>hiddens\<close> stays the empty
  list and \<^verbatim>\<open>torch.cat\<close> raises on it. The call does not return a tensor of zero
  rows; it raises, for every primitive and every encoder.
\<close>

theorem forward_empty_raises:
  "forward call self [] = (Inl CatEmptyList, self)"
  by (simp add: forward_def cat0_def)

text \<open>
  C3. For a list of word matrices \<open>[word_length \<times> n_chars]\<close> of at least one
  character each, and a primitive that meets its contract: when the list is not
  empty the result is a well-formed tensor of shape \<open>[number of words \<times> output_size]\<close>
  and each row has \<open>output_size\<close> entries; when the list is empty the call raises
  the exception of \<^verbatim>\<open>torch.cat\<close> instead of returning zero rows.
\<close>

theorem forward_shape:
  assumes "CharLSTM_init LSTM n_chars' hidden_size' bidirectional' layers dropout' = Inr self"
    and "0 \<le> hidden_size'" and "0 \<le> layers"
    and "lstm_contract call (lstm_kwargs n_chars' hidden_size' bidirectional' layers dropout')"
    and "\<forall>w \<in> set inputs. valid_word (n_chars self) w"
  shows "if inputs = [] then fst (forward call self inputs) = Inl CatEmptyList
         else (\<exists>t. fst (forward call self inputs) = Inr t \<and>
                 shape t = [length inputs, nat (output_size self)] \<and> wf_tensor t \<and>
                 (\<forall>i<length inputs. length (row t i) = nat (output_size self)))"
proof (cases "inputs = []")
  case True
  then show ?thesis by (simp add: forward_def cat0_def)
next
  case False
  let ?args = "lstm_kwargs n_chars' hidden_size' bidirectional' layers dropout'"
  have nc: "input_size ?args = n_chars self"
    using init_Inr(1) [OF assms(1)] by (simp add: lstm_kwargs_def)
  have n: "features_len ?args = nat (output_size self)"
    using features_len_kwargs [OF assms(2,3)] init_Inr(2) [OF assms(1)] by simp
  from assms(5) nc have "\<forall>w \<in> set inputs. valid_word (input_size ?args) w" by simp
  from forward_valid [OF assms(4) this False, of self] n False show ?thesis by simp
qed

theorem forward_shape_witness:
  "fst (forward (toy_call True ex_args) ex_self []) = Inl CatEmptyList \<and>
   (\<exists>t. fst (forward (toy_call True ex_args) ex_self [ex_long_word, ex_short_word]) = Inr t \<and>
        shape t = [2, 6] \<and> wf_tensor t \<and> length (row t 0) = 6 \<and> length (row t 1) = 6)"
proof -
  have c: "lstm_contract (toy_call True ex_args) (lstm_kwargs 5 3 True 1 0)"
    using toy_contract [of True ex_args] by (simp add: ex_args_def)
  have e: "fst (forward (toy_call True ex_args) ex_self []) = Inl CatEmptyList"
    using forward_shape [OF toy_init _ _ c, of "[]"] by simp
  have v: "\<forall>w \<in> set [ex_long_word, ex_short_word]. valid_word (n_chars ex_self) w"
    using ex_words_valid by (simp add: ex_self_fields)
  have "\<exists>t. fst (forward (toy_call True ex_args) ex_self [ex_long_word, ex_short_word]) = Inr t \<and>
        shape t = [2, 6] \<and> wf_tensor t \<and>
        (\<forall>i<length [ex_long_word, ex_short_word]. length (row t i) = 6)"
    using forward_shape [OF toy_init _ _ c v] by (simp add: ex_self_fields numeral_2_eq_2)
  with e show ?thesis by (auto simp: numeral_2_eq_2)
qed

text \<open>
  C4, as the code has it. \<^verbatim>\<open>__init__\<close> checks no hyperparameter: it fails
  exactly when the constructor of the primitive raises, with that exception, and
  succeeds otherwise, storing \<open>n_chars\<close> and \<open>output_size\<close> whatever their values.
\<close>

theorem init_delegates:
  "CharLSTM_init LSTM n_chars' hidden_size' bidirectional' layers dropout' =
     (case LSTM (lstm_kwargs n_chars' hidden_size' bidirectional' layers dropout') of
        Inl e \<Rightarrow> Inl (LSTMError e)
      | Inr r \<Rightarrow> Inr \<lparr>n_chars = n_chars',
                      output_size = layers * hidden_size' * (if bidirectional' then 2 else 1),
                      rnn = r\<rparr>)"
  by (simp add: CharLSTM_init_def Let_def split: sum.splits)

text \<open>
  C4, refuted as stated. A dropout of 1 lies outside \<open>[0, 1)\<close>, the primitive
  accepts it (its documented range includes 1), and the construction succeeds.
\<close>

theorem init_accepts_dropout_one:
  "CharLSTM_init toy_LSTM 5 3 True 1 1 = Inr \<lparr>n_chars = 5, output_size = 6, rnn = ()\<rparr>"
  by (simp add: CharLSTM_init_def toy_LSTM_def lstm_kwargs_def)

text \<open>
  C5. When some word matrix has a second dimension other than \<open>n_chars\<close> (the
  words of the right width having at least one character), and the primitive
  rejects such an input with the exception \<open>sm\<close>, \<open>forward\<close> raises \<open>sm\<close>: no
  tensor is returned, not even for the words before, and the encoder is as it was
  before the call.
\<close>

theorem forward_width_mismatch:
  assumes "CharLSTM_init LSTM n_chars' hidden_size' bidirectional' layers dropout' = Inr self"
    and "lstm_contract call (lstm_kwargs n_chars' hidden_size' bidirectional' layers dropout')"
    and "lstm_rejects_width call (lstm_kwargs n_chars' hidden_size' bidirectional' layers dropout') sm"
    and "lstm_pure call"
    and "\<forall>w \<in> set inputs. is_matrix w \<and> (int (width w) = n_chars self \<longrightarrow> valid_word (n_chars self) w)"
    and "\<exists>w \<in> set inputs. int (width w) \<noteq> n_chars self"
  shows "forward call self inputs = (Inl (LSTMError sm), self)"
proof -
  let ?args = "lstm_kwargs n_chars' hidden_size' bidirectional' layers dropout'"
  have nc: "n_chars self = input_size ?args"
    using init_Inr(1) [OF assms(1)] by (simp add: lstm_kwargs_def)
  from forward_loop_rejected [OF assms(2,3,4) assms(5) [unfolded nc] assms(6) [unfolded nc], of "rnn self" "[]"]
  show ?thesis by (simp add: forward_def)
qed

theorem forward_width_mismatch_witness:
  "forward (toy_call True ex_args) ex_self [ex_long_word, ex_narrow_word, ex_short_word] =
     (Inl (LSTMError ''input.size(-1) must be equal to input_size''), ex_self)"
proof -
  have c: "lstm_contract (toy_call True ex_args) (lstm_kwargs 5 3 True 1 0)"
    using toy_contract [of True ex_args] by (simp add: ex_args_def)
  have r: "lstm_rejects_width (toy_call True ex_args) (lstm_kwargs 5 3 True 1 0)
      ''input.size(-1) must be equal to input_size''"
    using toy_rejects_width [of True ex_args] by (simp add: ex_args_def)
  have m: "is_matrix ex_long_word" "is_matrix ex_narrow_word" "is_matrix ex_short_word"
    by (simp_all add: is_matrix_def ex_long_word_def ex_narrow_word_def ex_short_word_def)
  have w: "width ex_narrow_word = 4"
    by (simp add: width_def ex_narrow_word_def)
  have a: "\<forall>w \<in> set [ex_long_word, ex_narrow_word, ex_short_word].
      is_matrix w \<and> (int (width w) = n_chars ex_self \<longrightarrow> valid_word (n_chars ex_self) w)"
    using m w ex_words_valid by (simp add: ex_self_fields)
  have b: "\<exists>w \<in> set [ex_long_word, ex_narrow_word, ex_short_word]. int (width w) \<noteq> n_chars ex_self"
    using w by (simp add: ex_self_fields)
  show ?thesis
    by (rule forward_width_mismatch [OF toy_init c r toy_pure a b])
qed

text \<open>
  C6, as the code has it. \<open>forward\<close> has no guard for a word of no character:
  the word goes to the primitive like any other, with a leading batch dimension, and
  the outcome is the primitive's. If the primitive raises on it, \<open>forward\<close> raises
  that exception; if it returns a final hidden state, the flattened state is the
  word's row. (Stated for a primitive that meets its contract on the valid words
  around and leaves the module as it was.)
\<close>

theorem forward_empty_word_delegates:
  fixes call :: "('a, 'e, 'r) lstm_call"
  assumes "CharLSTM_init LSTM n_chars' hidden_size' bidirectional' layers dropout' = Inr self"
    and "lstm_contract call (lstm_kwargs n_chars' hidden_size' bidirectional' layers dropout')"
    and "lstm_pure call"
    and "\<forall>u \<in> set pre. valid_word (n_chars self) u"
    and "shape w = [0, k]"
  shows "(\<forall>e. fst (call (rnn self) (unsqueeze0 w)) = Inl e \<longrightarrow>
            forward call self (pre @ w # post) = (Inl (LSTMError e), self)) \<and>
         (\<forall>out h c. fst (call (rnn self) (unsqueeze0 w)) = Inr (out, h, c) \<and>
              shape h = final_state_shape (lstm_kwargs n_chars' hidden_size' bidirectional' layers dropout') \<and>
              wf_tensor h \<and> (\<forall>u \<in> set post. valid_word (n_chars self) u) \<longrightarrow>
            (\<exists>t. fst (forward call self (pre @ w # post)) = Inr t \<and>
                 row t (length pre) = data h))"
proof -
  let ?args = "lstm_kwargs n_chars' hidden_size' bidirectional' layers dropout'"
  let ?n = "features_len ?args"
  let ?r = "rnn self"
  let ?g = "\<lambda>u. \<lparr>shape = [1, ?n], data = hidden_of call ?r u\<rparr>"
  have nc: "n_chars self = input_size ?args"
    using init_Inr(1) [OF assms(1)] by (simp add: lstm_kwargs_def)
  have vpre: "\<forall>u \<in> set pre. valid_word (input_size ?args) u" using assms(4) nc by simp
  have pre: "forward_loop call ?r pre [] = (Inr (map ?g pre), ?r)"
    using forward_loop_pure [OF assms(2,3) vpre, of ?r "[]"] by simp
  have loop: "forward_loop call ?r (pre @ w # post) [] = forward_loop call ?r (w # post) (map ?g pre)"
    using pre by (simp add: forward_loop_append)
  have st: "snd (call ?r (unsqueeze0 w)) = ?r" using assms(3) by (simp add: lstm_pure_def)
  have fails: "forward call self (pre @ w # post) = (Inl (LSTMError e), self)"
    if "fst (call ?r (unsqueeze0 w)) = Inl e" for e
  proof -
    from that st have "call ?r (unsqueeze0 w) = (Inl e, ?r)" by (metis prod.collapse)
    then have "word_hidden call ?r w = (Inl (LSTMError e), ?r)" by (simp add: word_hidden_eq)
    with loop show ?thesis by (simp add: forward_def)
  qed
  have returns: "\<exists>t. fst (forward call self (pre @ w # post)) = Inr t \<and> row t (length pre) = data h"
    if c: "fst (call ?r (unsqueeze0 w)) = Inr (out, h, c)"
      and h: "shape h = final_state_shape ?args" "wf_tensor h"
      and vpost: "\<forall>u \<in> set post. valid_word (n_chars self) u" for out h c
  proof -
    let ?hw = "\<lparr>shape = [1, ?n], data = data h\<rparr>"
    let ?hs = "map ?g pre @ ?hw # map ?g post"
    from c st have "call ?r (unsqueeze0 w) = (Inr (out, h, c), ?r)" by (metis prod.collapse)
    moreover have "numel h = ?n" using h(1) by (rule numel_final)
    ultimately have "word_hidden call ?r w = (Inr ?hw, ?r)" by (simp add: word_hidden_eq)
    moreover have "forward_loop call ?r post (map ?g pre @ [?hw]) =
        (Inr ((map ?g pre @ [?hw]) @ map ?g post), ?r)"
      by (rule forward_loop_pure [OF assms(2,3)]) (use vpost nc in simp)
    ultimately have l: "forward_loop call ?r (pre @ w # post) [] = (Inr ?hs, ?r)"
      using loop by simp
    have "cat0 ?hs = (Inr \<lparr>shape = [length ?hs, ?n], data = concat (map data ?hs)\<rparr> :: 'e error + 'a tensor)"
      by (rule cat0_rows) auto
    with l have f: "fst (forward call self (pre @ w # post)) =
        Inr \<lparr>shape = [length ?hs, ?n], data = concat (map data ?hs)\<rparr>"
      by (simp add: forward_def)
    have lens: "\<forall>x \<in> set (map data ?hs). length x = ?n"
      using hidden_of_length [OF assms(2)] vpre vpost nc h \<open>numel h = ?n\<close>
      by (auto simp: wf_tensor_def)
    have i: "length pre < length (map data ?hs)" by simp
    have "row \<lparr>shape = [length ?hs, ?n], data = concat (map data ?hs)\<rparr> (length pre) =
        map data ?hs ! length pre"
      by (rule row_stack [OF lens i])
    also have "\<dots> = data h" by (simp add: nth_append)
    finally show ?thesis using f by blast
  qed
  from fails returns show ?thesis by blast
qed

theorem forward_empty_word_delegates_witness:
  "forward (toy_call True ex_args) ex_self [ex_long_word, ex_empty_word, ex_short_word] =
     (Inl (LSTMError ''Expected sequence length to be larger than 0 in RNN''), ex_self) \<and>
   (\<exists>t. fst (forward (toy_call False ex_args) ex_self [ex_long_word, ex_empty_word, ex_short_word]) = Inr t \<and>
        row t 1 = [0, 1, 2, 3, 4, 5])"
proof -
  have pre: "\<forall>u \<in> set [ex_long_word]. valid_word (n_chars ex_self) u"
    using ex_words_valid by (simp add: ex_self_fields)
  have post: "\<forall>u \<in> set [ex_short_word]. valid_word (n_chars ex_self) u"
    using ex_words_valid by (simp add: ex_self_fields)
  have s: "shape ex_empty_word = [0, 5]" by (simp add: ex_empty_word_def)
  let ?h = "\<lparr>shape = [2, 1, 3], data = [0, 1, 2, 3, 4, 5 :: int]\<rparr>"
  let ?out = "\<lparr>shape = [1, 0, 6], data = [] :: int list\<rparr>"
  have cT: "fst (toy_call True ex_args (rnn ex_self) (unsqueeze0 ex_empty_word)) =
      Inl ''Expected sequence length to be larger than 0 in RNN''"
    by (simp add: toy_call_def ex_args_def lstm_kwargs_def ex_empty_word_def unsqueeze0_def)
  have cF: "fst (toy_call False ex_args (rnn ex_self) (unsqueeze0 ex_empty_word)) = Inr (?out, ?h, ?h)"
    by (simp add: toy_call_def ex_args_def lstm_kwargs_def ex_empty_word_def unsqueeze0_def
        Let_def upt_rec)
  have h: "shape ?h = final_state_shape (lstm_kwargs 5 3 True 1 0)" "wf_tensor ?h"
    by (simp_all add: final_state_shape_def lstm_kwargs_def wf_tensor_def numel_def)
  from forward_empty_word_delegates [OF toy_init ex_contract toy_pure pre s, of True "[ex_short_word]"] cT
  have a: "forward (toy_call True ex_args) ex_self [ex_long_word, ex_empty_word, ex_short_word] =
     (Inl (LSTMError ''Expected sequence length to be larger than 0 in RNN''), ex_self)"
    by simp
  from forward_empty_word_delegates [OF toy_init ex_contract toy_pure pre s, of False "[ex_short_word]"]
    cF h post
  have "\<exists>t. fst (forward (toy_call False ex_args) ex_self ([ex_long_word] @ ex_empty_word # [ex_short_word])) = Inr t \<and>
        row t (length [ex_long_word]) = data ?h"
    by blast
  then have b: "\<exists>t. fst (forward (toy_call False ex_args) ex_self [ex_long_word, ex_empty_word, ex_short_word]) = Inr t \<and>
        row t 1 = [0, 1, 2, 3, 4, 5]"
    by simp
  from a b show ?thesis by blast
qed

text \<open>
  C6, refuted as stated. The same encoder on the same word of no character: with
  a primitive that rejects an empty sequence the exception that comes out is the
  primitive's own, and with a primitive that accepts it the row is what the
  primitive returned, neither an error nor zeros. The encoder applies no policy.
\<close>

theorem empty_word_reaches_primitive:
  "fst (forward (toy_call True ex_args) ex_self [ex_empty_word]) =
     Inl (LSTMError ''Expected sequence length to be larger than 0 in RNN'') \<and>
   fst (forward (toy_call False ex_args) ex_self [ex_empty_word]) =
     Inr \<lparr>shape = [1, 6], data = [0, 1, 2, 3, 4, 5]\<rparr>"
  by (simp add: forward_def word_hidden_eq toy_call_def ex_args_def lstm_kwargs_def ex_self_def
      ex_empty_word_def unsqueeze0_def numel_def cat0_def Let_def upt_rec)

text \<open>
  C7. For a non-empty list of valid word matrices and a primitive that meets its
  contract and leaves the module as it was: reordering the words by a permutation
  \<open>p\<close> of the positions gives the rows reordered by \<open>p\<close>, and a list of valid words
  that agrees with \<open>inputs\<close> at position \<open>i\<close> gives the same row \<open>i\<close>.
\<close>

theorem forward_rows_independent:
  assumes "CharLSTM_init LSTM n_chars' hidden_size' bidirectional' layers dropout' = Inr self"
    and "lstm_contract call (lstm_kwargs n_chars' hidden_size' bidirectional' layers dropout')"
    and "lstm_pure call"
    and "inputs \<noteq> []"
    and "\<forall>w \<in> set inputs. valid_word (n_chars self) w"
    and "mset p = mset [0..<length inputs]"
    and "length inputs' = length inputs"
    and "\<forall>w \<in> set inputs'. valid_word (n_chars self) w"
    and "i < length inputs" and "inputs' ! i = inputs ! i"
  shows "\<exists>t tp t'. fst (forward call self inputs) = Inr t \<and>
           fst (forward call self (map ((!) inputs) p)) = Inr tp \<and>
           shape tp = shape t \<and> (\<forall>j<length inputs. row tp j = row t (p ! j)) \<and>
           fst (forward call self inputs') = Inr t' \<and> row t' i = row t i"
proof -
  let ?args = "lstm_kwargs n_chars' hidden_size' bidirectional' layers dropout'"
  let ?perm = "map ((!) inputs) p"
  have nc: "n_chars self = input_size ?args"
    using init_Inr(1) [OF assms(1)] by (simp add: lstm_kwargs_def)
  have v: "\<forall>w \<in> set inputs. valid_word (input_size ?args) w" using assms(5) nc by simp
  have v': "\<forall>w \<in> set inputs'. valid_word (input_size ?args) w" using assms(8) nc by simp
  have lp: "length p = length inputs"
    using mset_eq_length [OF assms(6)] by simp
  have sp: "set p = {0..<length inputs}"
    using mset_eq_setD [OF assms(6)] by simp
  have vp: "\<forall>w \<in> set ?perm. valid_word (input_size ?args) w"
    using v sp by auto
  have nep: "?perm \<noteq> []" using lp assms(4) by auto
  have ne': "inputs' \<noteq> []" using assms(4,7) by auto
  obtain t where t: "fst (forward call self inputs) = Inr t"
    and st: "shape t = [length inputs, features_len ?args]"
    using forward_pure_valid [OF assms(2,3) v assms(4), of self] by simp
  obtain tp where tp: "fst (forward call self ?perm) = Inr tp"
    and stp: "shape tp = [length ?perm, features_len ?args]"
    using forward_pure_valid [OF assms(2,3) vp nep, of self] by simp
  obtain t' where t': "fst (forward call self inputs') = Inr t'"
    using forward_pure_valid [OF assms(2,3) v' ne', of self] by simp
  have rows: "\<forall>j<length inputs. row tp j = row t (p ! j)"
  proof (intro allI impI)
    fix j assume j: "j < length inputs"
    then have jp: "j < length ?perm" using lp by simp
    from j lp sp have pj: "p ! j < length inputs"
      by (metis atLeastLessThan_iff nth_mem)
    have "row tp j = hidden_of call (rnn self) (?perm ! j)"
      using forward_pure_row [OF assms(2,3) vp jp, of self] tp by simp
    also have "\<dots> = hidden_of call (rnn self) (inputs ! (p ! j))" using j lp by simp
    also have "\<dots> = row t (p ! j)"
      using forward_pure_row [OF assms(2,3) v pj, of self] t by simp
    finally show "row tp j = row t (p ! j)" .
  qed
  have "row t' i = hidden_of call (rnn self) (inputs' ! i)"
    using forward_pure_row [OF assms(2,3) v', of i self] t' assms(7,9) by simp
  also have "\<dots> = row t i"
    using forward_pure_row [OF assms(2,3) v assms(9), of self] t assms(10) by simp
  finally have "row t' i = row t i" .
  with t tp t' st stp lp rows show ?thesis by simp
qed

theorem forward_rows_independent_witness:
  "\<exists>t tp t'.
     fst (forward (toy_call True ex_args) ex_self [ex_long_word, ex_short_word]) = Inr t \<and>
     fst (forward (toy_call True ex_args) ex_self [ex_short_word, ex_long_word]) = Inr tp \<and>
     shape tp = shape t \<and> row tp 0 = row t 1 \<and> row tp 1 = row t 0 \<and>
     fst (forward (toy_call True ex_args) ex_self [ex_long_word, ex_other_word]) = Inr t' \<and>
     row t' 0 = row t 0"
proof -
  let ?inputs = "[ex_long_word, ex_short_word]"
  let ?inputs' = "[ex_long_word, ex_other_word]"
  let ?p = "[1, 0 :: nat]"
  have v: "\<forall>w \<in> set ?inputs. valid_word (n_chars ex_self) w"
    using ex_words_valid by (simp add: ex_self_fields)
  have v': "\<forall>w \<in> set ?inputs'. valid_word (n_chars ex_self) w"
    using ex_words_valid ex_other_valid by (simp add: ex_self_fields)
  have p: "mset ?p = mset [0..<length ?inputs]" by (simp add: upt_rec)
  have m: "map ((!) ?inputs) ?p = [ex_short_word, ex_long_word]" by simp
  from forward_rows_independent [OF toy_init ex_contract [of True] toy_pure _ v p _ v', where i = 0]
  obtain t tp t' where
    t: "fst (forward (toy_call True ex_args) ex_self ?inputs) = Inr t"
    and tp: "fst (forward (toy_call True ex_args) ex_self (map ((!) ?inputs) ?p)) = Inr tp"
    and s: "shape tp = shape t"
    and r: "\<forall>j<length ?inputs. row tp j = row t (?p ! j)"
    and t': "fst (forward (toy_call True ex_args) ex_self ?inputs') = Inr t'"
    and r': "row t' 0 = row t 0"
    by auto
  from r have "row tp 0 = row t 1" "row tp 1 = row t 0" by simp_all
  with t tp s t' r' m show ?thesis by auto
qed

text \<open>
  C8. With a primitive whose calls leave the module as it was (parameters fixed,
  dropout inactive), \<open>forward\<close> leaves the encoder as it was and a second call on
  the same input gives the same result, tensor or exception.
\<close>

theorem forward_deterministic:
  assumes "lstm_pure call"
  shows "snd (forward call self inputs) = self \<and>
         fst (forward call (snd (forward call self inputs)) inputs) = fst (forward call self inputs)"
proof -
  have "snd (forward call self inputs) = self\<lparr>rnn := snd (forward_loop call (rnn self) inputs [])\<rparr>"
    by (simp add: forward_def split: prod.splits sum.splits)
  with forward_loop_pure_state [OF assms, of "rnn self" inputs "[]"]
  have "snd (forward call self inputs) = self" by simp
  then show ?thesis by simp
qed

theorem forward_deterministic_witness:
  "snd (forward (toy_call True ex_args) ex_self [ex_long_word, ex_short_word]) = ex_self \<and>
   fst (forward (toy_call True ex_args)
          (snd (forward (toy_call True ex_args) ex_self [ex_long_word, ex_short_word]))
          [ex_long_word, ex_short_word]) =
     Inr \<lparr>shape = [2, 6], data = [3, 4, 5, 6, 7, 8,  1, 2, 3, 4, 5, 6]\<rparr>"
  using forward_deterministic [OF toy_pure, of True ex_args ex_self "[ex_long_word, ex_short_word]"]
    ex_forward
  by simp

text \<open>
  C9. For a valid word, the row that \<open>forward\<close> produces is the vector the
  specification describes: batch dimension inserted, primitive run, per-step outputs
  dropped, final hidden state kept, batch dimension removed, entries flattened in
  the primitive's order; it has \<open>output_size\<close> entries. (The code's \<^verbatim>\<open>squeeze()\<close>
  removes every dimension of size 1, not only the batch dimension; the flattened
  entries are the same.)
\<close>

theorem row_is_final_hidden:
  assumes "CharLSTM_init LSTM n_chars' hidden_size' bidirectional' layers dropout' = Inr self"
    and "0 \<le> hidden_size'" and "0 \<le> layers"
    and "lstm_contract call (lstm_kwargs n_chars' hidden_size' bidirectional' layers dropout')"
    and "lstm_pure call"
    and "\<forall>w \<in> set inputs. valid_word (n_chars self) w"
    and "i < length inputs"
  shows "\<exists>t v. fst (forward call self inputs) = Inr t \<and>
           spec_word_vector call (rnn self) (inputs ! i) = Inr v \<and>
           length v = nat (output_size self) \<and>
           fst (word_hidden call (rnn self) (inputs ! i)) =
             Inr \<lparr>shape = [1, nat (output_size self)], data = v\<rparr> \<and>
           row t i = v"
proof -
  let ?args = "lstm_kwargs n_chars' hidden_size' bidirectional' layers dropout'"
  let ?w = "inputs ! i"
  have nc: "n_chars self = input_size ?args"
    using init_Inr(1) [OF assms(1)] by (simp add: lstm_kwargs_def)
  have n: "features_len ?args = nat (output_size self)"
    using features_len_kwargs [OF assms(2,3)] init_Inr(2) [OF assms(1)] by simp
  have v: "\<forall>w \<in> set inputs. valid_word (input_size ?args) w" using assms(6) nc by simp
  with assms(7) have vw: "valid_word (input_size ?args) ?w" by simp
  from assms(7) have ne: "inputs \<noteq> []" by auto
  from call_valid [OF assms(4) vw, of "rnn self"] obtain out h c r'
    where c: "call (rnn self) (unsqueeze0 ?w) = (Inr (out, h, c), r')"
    by blast
  then have sv: "spec_word_vector call (rnn self) ?w = Inr (hidden_of call (rnn self) ?w)"
    by (simp add: spec_word_vector_eq hidden_of_def)
  from word_hidden_valid [OF assms(4) vw, of "rnn self"] n
  have wh: "fst (word_hidden call (rnn self) ?w) =
      Inr \<lparr>shape = [1, nat (output_size self)], data = hidden_of call (rnn self) ?w\<rparr>"
    and len: "length (hidden_of call (rnn self) ?w) = nat (output_size self)"
    by auto
  from forward_pure_valid [OF assms(4,5) v ne, of self]
  obtain t where t: "fst (forward call self inputs) = Inr t" by simp
  with forward_pure_row [OF assms(4,5) v assms(7), of self]
  have "row t i = hidden_of call (rnn self) ?w" by simp
  with t sv wh len show ?thesis by simp
qed

theorem row_is_final_hidden_witness:
  "\<exists>t v. fst (forward (toy_call True ex_args) ex_self [ex_long_word, ex_short_word]) = Inr t \<and>
     spec_word_vector (toy_call True ex_args) () ex_short_word = Inr v \<and>
     length v = 6 \<and>
     fst (word_hidden (toy_call True ex_args) () ex_short_word) = Inr \<lparr>shape = [1, 6], data = v\<rparr> \<and>
     row t 1 = v"
proof -
  have v: "\<forall>w \<in> set [ex_long_word, ex_short_word]. valid_word (n_chars ex_self) w"
    using ex_words_valid by (simp add: ex_self_fields)
  from row_is_final_hidden [OF toy_init _ _ ex_contract [of True] toy_pure v, where i = 1]
  show ?thesis by (simp add: ex_self_fields)
qed

text \<open>
  C10. For two non-empty lists of valid word matrices, and a primitive that meets
  its contract and leaves the module as it was, \<open>forward\<close> on the concatenation is
  \<^verbatim>\<open>torch.cat\<close> of the two separate results.
\<close>

theorem forward_append:
  fixes call :: "('a, 'e, 'r) lstm_call"
  assumes "CharLSTM_init LSTM n_chars' hidden_size' bidirectional' layers dropout' = Inr self"
    and "lstm_contract call (lstm_kwargs n_chars' hidden_size' bidirectional' layers dropout')"
    and "lstm_pure call"
    and "xs \<noteq> []" and "ys \<noteq> []"
    and "\<forall>w \<in> set xs. valid_word (n_chars self) w"
    and "\<forall>w \<in> set ys. valid_word (n_chars self) w"
  shows "\<exists>tx ty. fst (forward call self xs) = Inr tx \<and> fst (forward call self ys) = Inr ty \<and>
           fst (forward call self (xs @ ys)) = cat0 [tx, ty] \<and>
           (\<exists>t. fst (forward call self (xs @ ys)) = Inr t)"
proof -
  let ?args = "lstm_kwargs n_chars' hidden_size' bidirectional' layers dropout'"
  let ?n = "features_len ?args"
  let ?g = "hidden_of call (rnn self)"
  have nc: "n_chars self = input_size ?args"
    using init_Inr(1) [OF assms(1)] by (simp add: lstm_kwargs_def)
  have vx: "\<forall>w \<in> set xs. valid_word (input_size ?args) w" using assms(6) nc by simp
  have vy: "\<forall>w \<in> set ys. valid_word (input_size ?args) w" using assms(7) nc by simp
  have vxy: "\<forall>w \<in> set (xs @ ys). valid_word (input_size ?args) w" using vx vy by auto
  let ?tx = "\<lparr>shape = [length xs, ?n], data = concat (map ?g xs)\<rparr>"
  let ?ty = "\<lparr>shape = [length ys, ?n], data = concat (map ?g ys)\<rparr>"
  let ?t = "\<lparr>shape = [length (xs @ ys), ?n], data = concat (map ?g (xs @ ys))\<rparr>"
  have fx: "forward call self xs = (Inr ?tx, self)"
    by (rule forward_pure_valid [OF assms(2,3) vx assms(4)])
  have fy: "forward call self ys = (Inr ?ty, self)"
    by (rule forward_pure_valid [OF assms(2,3) vy assms(5)])
  have fxy: "forward call self (xs @ ys) = (Inr ?t, self)"
    by (rule forward_pure_valid [OF assms(2,3) vxy]) (use assms(4) in simp)
  have "cat0 [?tx, ?ty] = (Inr ?t :: 'e error + 'a tensor)" by (simp add: cat0_def)
  with fx fy fxy show ?thesis by simp
qed

theorem forward_append_witness:
  "\<exists>tx ty. fst (forward (toy_call True ex_args) ex_self [ex_long_word]) = Inr tx \<and>
     fst (forward (toy_call True ex_args) ex_self [ex_short_word]) = Inr ty \<and>
     fst (forward (toy_call True ex_args) ex_self [ex_long_word, ex_short_word]) = cat0 [tx, ty] \<and>
     (\<exists>t. fst (forward (toy_call True ex_args) ex_self [ex_long_word, ex_short_word]) = Inr t)"
proof -
  have vx: "\<forall>w \<in> set [ex_long_word]. valid_word (n_chars ex_self) w"
    using ex_words_valid by (simp add: ex_self_fields)
  have vy: "\<forall>w \<in> set [ex_short_word]. valid_word (n_chars ex_self) w"
    using ex_words_valid by (simp add: ex_self_fields)
  from forward_append [OF toy_init ex_contract [of True] toy_pure _ _ vx vy]
  show ?thesis by simp
qed

end
